theory Spec2Isabelle
  imports Main "HOL-Library.Sublist"
begin

section \<open>Python values\<close>

text \<open>
  A Python \<open>str\<close> is a sequence of Unicode code points: \<open>len\<close> and slicing count
  code points, so a character is its code point and a string is a list of them.
  \<open>bytes\<close> objects are lists of 8-bit characters.
\<close>

type_synonym uchar = nat
type_synonym ustring = "uchar list"
type_synonym bytes = "char list"

definition ascii :: "string \<Rightarrow> ustring" where
  "ascii s = map of_char s"

definition newline :: uchar where
  "newline = 10"

text \<open>The objects \<open>json.load\<close> and \<open>response.json()\<close> produce.\<close>

datatype pyval =
    PNone
  | PBool bool
  | PInt int
  | PFloat ustring
  | PStr ustring
  | PList "pyval list"
  | PDict "(ustring \<times> pyval) list"

text \<open>
  Exceptions. The first group is raised by the interpreter on the operations of
  \<open>app.py\<close> itself; the second group comes out of the libraries the program calls
  (\<open>open\<close>, \<open>json\<close>, \<open>requests\<close>, \<open>PyPDF2\<close>), with the library's own message.
\<close>

datatype py_exc =
    KeyError pyval
  | IndexError
  | TypeError
  | AttributeError
  | ValueError
  | HTTPError nat
  | RequestException ustring
  | JSONDecodeError ustring
  | PdfReadError ustring
  | OSError ustring

section \<open>The collaborators\<close>

record response =
  status_code :: nat
  content :: bytes
  json_body :: "py_exc + pyval"

record request =
  req_url :: ustring
  req_authorization :: ustring
  req_model :: ustring
  req_system :: pyval
  req_user :: ustring
  req_temperature :: ustring
  req_top_p :: ustring

text \<open>
  What the program does not implement: the two HTTP calls, the PDF decoder (the
  pages of a document, each with the outcome of its \<open>extract_text()\<close>), and, of the
  interpreter, \<open>str(e)\<close> on an exception object, the decimal value of a character
  beyond ASCII in the Unicode tables, the largest \<open>Py_ssize_t\<close>, and what \<open>str.format\<close>
  does with a value once it has been looked up for a replacement field that asks
  for more than the value itself (an attribute or index access, a conversion, a
  format specification): \<open>render_field\<close> takes the value, the access path, the
  conversion, the format specification and the keyword arguments.
\<close>

type_synonym page = "py_exc + ustring"

record env =
  requests_get :: "ustring \<Rightarrow> py_exc + response"
  requests_post :: "request \<Rightarrow> py_exc + response"
  PdfReader :: "bytes \<Rightarrow> py_exc + page list"
  exc_str :: "py_exc \<Rightarrow> ustring"
  unicode_decimal :: "uchar \<Rightarrow> nat option"
  ssize_t_max :: nat
  render_field ::
    "ustring \<Rightarrow> ustring \<Rightarrow> uchar option \<Rightarrow> ustring \<Rightarrow> (ustring \<times> ustring) list \<Rightarrow> py_exc + ustring"

datatype net_call = GET ustring | POST request

section \<open>extract_text_from_pdf\<close>

text \<open>
  Lines 32 to 34: \<open>text = ""; for page in reader.pages: text += page.extract_text() + "\n"\<close>.
  The loop stops at the first page whose extraction raises.
\<close>

fun pages_loop :: "ustring \<Rightarrow> page list \<Rightarrow> py_exc + ustring" where
  "pages_loop text [] = Inr text"
| "pages_loop text (p # ps) =
     (case p of
        Inl e \<Rightarrow> Inl e
      | Inr t \<Rightarrow> pages_loop (text @ (t @ [newline])) ps)"

definition truncation_cap :: nat where
  "truncation_cap = 3000"

text \<open>
  Lines 28 to 35. The result pairs the network calls made with the outcome: the
  GET is issued first, whatever follows.
\<close>

definition extract_text_from_pdf :: "env \<Rightarrow> ustring \<Rightarrow> net_call list \<times> (py_exc + ustring)" where
  "extract_text_from_pdf E url =
     ([GET url],
      (case requests_get E url of
         Inl e \<Rightarrow> Inl e
       | Inr resp \<Rightarrow>
           (case PdfReader E (content resp) of
              Inl e \<Rightarrow> Inl e
            | Inr pages \<Rightarrow>
                (case pages_loop [] pages of
                   Inl e \<Rightarrow> Inl e
                 | Inr text \<Rightarrow> Inr (take truncation_cap text)))))"

section \<open>String operations of the interpreter\<close>

text \<open>
  \<open>str.strip()\<close> removes the characters \<open>str.isspace\<close> accepts from both ends.
\<close>

definition is_space :: "uchar \<Rightarrow> bool" where
  "is_space c \<longleftrightarrow>
     (9 \<le> c \<and> c \<le> 13) \<or> (28 \<le> c \<and> c \<le> 32) \<or> c = 133 \<or> c = 160 \<or> c = 5760 \<or>
     (8192 \<le> c \<and> c \<le> 8202) \<or> c = 8232 \<or> c = 8233 \<or> c = 8239 \<or> c = 8287 \<or> c = 12288"

definition strip :: "ustring \<Rightarrow> ustring" where
  "strip s = rev (dropWhile is_space (rev (dropWhile is_space s)))"

text \<open>\<open>str(n)\<close> for an integer, as the f-string \<open>f"{length} sentences"\<close> renders it.\<close>

fun digits :: "nat \<Rightarrow> ustring" where
  "digits n = (if n < 10 then [48 + n] else digits (n div 10) @ [48 + n mod 10])"

declare digits.simps [simp del]

definition str_int :: "int \<Rightarrow> ustring" where
  "str_int i = (if i < 0 then 45 # digits (nat (- i)) else digits (nat i))"

subsection \<open>str.format with keyword arguments\<close>

definition lbrace :: uchar where
  "lbrace = 123"

definition rbrace :: uchar where
  "rbrace = 125"

definition lbracket :: uchar where
  "lbracket = 91"

definition rbracket :: uchar where
  "rbracket = 93"

definition dot :: uchar where
  "dot = 46"

definition bang :: uchar where
  "bang = 33"

definition colon :: uchar where
  "colon = 58"

definition prepend :: "ustring \<Rightarrow> py_exc + ustring \<Rightarrow> py_exc + ustring" where
  "prepend out r = (case r of Inl e \<Rightarrow> Inl e | Inr s \<Rightarrow> Inr (out @ s))"

text \<open>
  The formatter's \<open>parse_field\<close>, entered after the opening brace of a replacement
  field. The field name runs to the first \<open>}\<close>, \<open>:\<close> or \<open>!\<close>; a \<open>{\<close> in it is an error,
  and after a \<open>[\<close> everything up to the next \<open>]\<close> is skipped over. The result is
  the name, the character that ended it, and what follows that character.
\<close>

fun scan_name :: "ustring \<Rightarrow> bool \<Rightarrow> ustring \<Rightarrow> py_exc + (ustring \<times> uchar \<times> ustring)" where
  "scan_name acc skipping [] = Inl ValueError"
| "scan_name acc True (c # cs) = scan_name (acc @ [c]) (c \<noteq> rbracket) cs"
| "scan_name acc False (c # cs) =
     (if c = lbrace then Inl ValueError
      else if c = lbracket then scan_name (acc @ [c]) True cs
      else if c = rbrace \<or> c = colon \<or> c = bang then Inr (acc, c, cs)
      else scan_name (acc @ [c]) False cs)"

text \<open>
  The format specification runs to the closing brace that balances the field's
  opening one, nested braces counted.
\<close>

fun scan_spec :: "nat \<Rightarrow> ustring \<Rightarrow> ustring \<Rightarrow> py_exc + (ustring \<times> ustring)" where
  "scan_spec count acc [] = Inl ValueError"
| "scan_spec count acc (c # cs) =
     (if c = lbrace then scan_spec (Suc count) (acc @ [c]) cs
      else if c = rbrace then
        (if count = 1 then Inr (acc, cs) else scan_spec (count - 1) (acc @ [c]) cs)
      else scan_spec count (acc @ [c]) cs)"

text \<open>
  A parsed field: its name, its conversion character if any, its format
  specification, and the rest of the format string after the field.
\<close>

definition parse_field :: "ustring \<Rightarrow> py_exc + (ustring \<times> uchar option \<times> ustring \<times> ustring)" where
  "parse_field s =
     (case scan_name [] False s of
        Inl e \<Rightarrow> Inl e
      | Inr (name, c, cs) \<Rightarrow>
          if c = rbrace then Inr (name, None, [], cs)
          else if c = bang then
            (case cs of
               [] \<Rightarrow> Inl ValueError
             | conv # cs' \<Rightarrow>
                 (case cs' of
                    [] \<Rightarrow> Inl ValueError
                  | c2 # cs'' \<Rightarrow>
                      if c2 = rbrace then Inr (name, Some conv, [], cs'')
                      else if c2 \<noteq> colon then Inl ValueError
                      else (case scan_spec 1 [] cs'' of
                              Inl e \<Rightarrow> Inl e
                            | Inr (spec, rest) \<Rightarrow> Inr (name, Some conv, spec, rest))))
          else (case scan_spec 1 [] cs of
                  Inl e \<Rightarrow> Inl e
                | Inr (spec, rest) \<Rightarrow> Inr (name, None, spec, rest)))"

definition is_digit :: "uchar \<Rightarrow> bool" where
  "is_digit c \<longleftrightarrow> 48 \<le> c \<and> c \<le> 57"

text \<open>The decimal value of a character: fixed on ASCII, the Unicode tables' beyond.\<close>

definition decimal_value :: "env \<Rightarrow> uchar \<Rightarrow> nat option" where
  "decimal_value E c =
     (if c < 128 then (if is_digit c then Some (c - 48) else None) else unicode_decimal E c)"

text \<open>
  The formatter's \<open>get_integer\<close> on the first part of a field name: \<open>None\<close> at the
  first character that is not a decimal digit, \<open>ValueError\<close> when the number would
  pass the largest \<open>Py_ssize_t\<close>.
\<close>

fun get_integer :: "env \<Rightarrow> nat \<Rightarrow> ustring \<Rightarrow> py_exc + nat option" where
  "get_integer E acc [] = Inr (Some acc)"
| "get_integer E acc (c # cs) =
     (case decimal_value E c of
        None \<Rightarrow> Inr None
      | Some d \<Rightarrow>
          if acc > (ssize_t_max E - d) div 10 then Inl ValueError
          else get_integer E (acc * 10 + d) cs)"

text \<open>
  The value a parsed field stands for. The first part of the name (up to a \<open>.\<close> or
  \<open>[\<close>) is a positional index when it is empty or a number, and \<open>app.py\<close> passes no
  positional argument, so that is an \<open>IndexError\<close>; otherwise it is looked up among
  the keyword arguments, a \<open>KeyError\<close> when absent. A field that is the bare name
  is replaced by the value; for any other the interpreter renders the value.
\<close>

definition field_value ::
  "env \<Rightarrow> (ustring \<times> ustring) list \<Rightarrow> ustring \<Rightarrow> uchar option \<Rightarrow> ustring \<Rightarrow> py_exc + ustring" where
  "field_value E kw name conv spec =
     (let first = takeWhile (\<lambda>c. c \<noteq> dot \<and> c \<noteq> lbracket) name;
          path = dropWhile (\<lambda>c. c \<noteq> dot \<and> c \<noteq> lbracket) name
      in case (if first = [] then Inr None else get_integer E 0 first) of
           Inl e \<Rightarrow> Inl e
         | Inr idx \<Rightarrow>
             if first = [] \<or> idx \<noteq> None then Inl IndexError
             else (case map_of kw first of
                     None \<Rightarrow> Inl (KeyError (PStr first))
                   | Some v \<Rightarrow>
                       if path = [] \<and> conv = None \<and> spec = [] then Inr v
                       else render_field E v path conv spec kw))"

text \<open>
  \<open>str.format\<close> with keyword arguments only. The formatter reads the format string
  from left to right and raises at the first problem it meets: literal text, the
  doubled braces \<open>{{\<close> and \<open>}}\<close>, a lone brace (\<open>ValueError\<close>), and replacement fields.
\<close>

function format_str :: "env \<Rightarrow> (ustring \<times> ustring) list \<Rightarrow> ustring \<Rightarrow> py_exc + ustring" where
  "format_str E kw [] = Inr []"
| "format_str E kw (c # cs) =
     (if c = rbrace then
        (case cs of
           [] \<Rightarrow> Inl ValueError
         | d # ds \<Rightarrow> if d = rbrace then prepend [rbrace] (format_str E kw ds) else Inl ValueError)
      else if c = lbrace then
        (case cs of
           [] \<Rightarrow> Inl ValueError
         | d # ds \<Rightarrow>
             if d = lbrace then prepend [lbrace] (format_str E kw ds)
             else
               (case parse_field cs of
                  Inl e \<Rightarrow> Inl e
                | Inr (name, conv, spec, rest) \<Rightarrow>
                    (case field_value E kw name conv spec of
                       Inl e \<Rightarrow> Inl e
                     | Inr v \<Rightarrow> prepend v (format_str E kw rest))))
      else prepend [c] (format_str E kw cs))"
  by pat_completeness auto
termination
proof (relation "measure (\<lambda>(E, kw, s). length s)")
  have name: "scan_name acc b s = Inr (n, c, r) \<Longrightarrow> length r < length s"
    for acc b s n c r
    by (induction acc b s rule: scan_name.induct) (auto split: if_splits)
  have spec: "scan_spec k acc s = Inr (sp, r) \<Longrightarrow> length r < length s"
    for k acc s sp r
    by (induction k acc s rule: scan_spec.induct) (auto split: if_splits)
  have field: "parse_field s = Inr (n, cv, sp, r) \<Longrightarrow> length r < length s"
    for s n cv sp r
    by (auto simp: parse_field_def split: sum.splits prod.splits if_splits list.splits
        dest!: name spec)
  show "\<And>E kw c cs x21 x22 x2 x y xa ya xb yb x2a.
       c \<noteq> rbrace \<Longrightarrow> c = lbrace \<Longrightarrow> cs = x21 # x22 \<Longrightarrow> x21 \<noteq> lbrace \<Longrightarrow>
       parse_field cs = Inr x2 \<Longrightarrow> (x, y) = x2 \<Longrightarrow> (xa, ya) = y \<Longrightarrow> (xb, yb) = ya \<Longrightarrow>
       field_value E kw x xa xb = Inr x2a \<Longrightarrow>
       ((E, kw, yb), E, kw, c # cs) \<in> measure (\<lambda>(E, kw, s). length s)"
    using field by fastforce
qed auto

declare format_str.simps [simp del]

section \<open>generate_summary\<close>

text \<open>\<open>obj["key"]\<close> and \<open>obj[0]\<close> on the objects a JSON document decodes to.\<close>

fun subscript_str :: "pyval \<Rightarrow> ustring \<Rightarrow> py_exc + pyval" where
  "subscript_str (PDict kvs) k = (case map_of kvs k of None \<Rightarrow> Inl (KeyError (PStr k)) | Some v \<Rightarrow> Inr v)"
| "subscript_str _ k = Inl TypeError"

fun subscript_0 :: "pyval \<Rightarrow> py_exc + pyval" where
  "subscript_0 (PDict kvs) = Inl (KeyError (PInt 0))"
| "subscript_0 (PList xs) = (case xs of [] \<Rightarrow> Inl IndexError | x # _ \<Rightarrow> Inr x)"
| "subscript_0 (PStr s) = (case s of [] \<Rightarrow> Inl IndexError | c # _ \<Rightarrow> Inr (PStr [c]))"
| "subscript_0 _ = Inl TypeError"

definition and_then :: "py_exc + 'a \<Rightarrow> ('a \<Rightarrow> py_exc + 'b) \<Rightarrow> py_exc + 'b" where
  "and_then r f = (case r of Inl e \<Rightarrow> Inl e | Inr x \<Rightarrow> f x)"

text \<open>Lines 39 to 43: the template's format string, filled with the three keywords.\<close>

definition build_prompt :: "env \<Rightarrow> pyval \<Rightarrow> ustring \<Rightarrow> ustring \<Rightarrow> int \<Rightarrow> py_exc + ustring" where
  "build_prompt E TEMPLATE text audience len =
     and_then (subscript_str TEMPLATE (ascii ''prompt_template''))
       (\<lambda>f. case f of
              PStr fmt \<Rightarrow>
                format_str E
                  [(ascii ''audience'', audience),
                   (ascii ''length'', str_int len @ ascii '' sentences''),
                   (ascii ''text'', text)] fmt
            | _ \<Rightarrow> Inl AttributeError)"

definition GROQ_URL :: ustring where
  "GROQ_URL = ascii ''https://api.groq.com/openai/v1/chat/completions''"

definition MODEL :: ustring where
  "MODEL = ascii ''llama3-70b-8192''"

text \<open>\<open>f"Bearer {API_KEY}"\<close>, where \<open>os.getenv\<close> gave \<open>None\<close> for an unset variable.\<close>

definition bearer :: "ustring option \<Rightarrow> ustring" where
  "bearer API_KEY = ascii ''Bearer '' @ (case API_KEY of None \<Rightarrow> ascii ''None'' | Some k \<Rightarrow> k)"

definition make_request :: "ustring option \<Rightarrow> pyval \<Rightarrow> ustring \<Rightarrow> request" where
  "make_request API_KEY sys prompt =
     \<lparr>req_url = GROQ_URL, req_authorization = bearer API_KEY, req_model = MODEL,
      req_system = sys, req_user = prompt,
      req_temperature = ascii ''0.7'', req_top_p = ascii ''0.9''\<rparr>"

text \<open>\<open>Response.raise_for_status()\<close> of requests raises on the 4xx and 5xx codes.\<close>

definition raise_for_status :: "response \<Rightarrow> py_exc + unit" where
  "raise_for_status resp =
     (if 400 \<le> status_code resp \<and> status_code resp < 600
      then Inl (HTTPError (status_code resp)) else Inr ())"

text \<open>\<open>body["choices"][0]["message"]["content"]\<close> and the \<open>.strip()\<close> on it.\<close>

definition completion_content :: "pyval \<Rightarrow> py_exc + pyval" where
  "completion_content body =
     and_then (subscript_str body (ascii ''choices''))
       (\<lambda>choices. and_then (subscript_0 choices)
         (\<lambda>choice. and_then (subscript_str choice (ascii ''message''))
           (\<lambda>message. subscript_str message (ascii ''content''))))"

definition strip_method :: "pyval \<Rightarrow> py_exc + ustring" where
  "strip_method v = (case v of PStr s \<Rightarrow> Inr (strip s) | _ \<Rightarrow> Inl AttributeError)"

text \<open>The body of the \<open>try\<close>, lines 61 to 64.\<close>

definition request_completion :: "env \<Rightarrow> request \<Rightarrow> py_exc + ustring" where
  "request_completion E req =
     and_then (requests_post E req)
       (\<lambda>resp. and_then (raise_for_status resp)
         (\<lambda>_. and_then (json_body resp)
           (\<lambda>body. and_then (completion_content body) strip_method)))"

definition err_prefix :: ustring where
  "err_prefix = 10060 # ascii '' Error: ''"

text \<open>
  Lines 37 to 66. The prompt and the request body are built before the \<open>try\<close>;
  only the POST and the reading of its response are inside it.
\<close>

definition generate_summary ::
  "env \<Rightarrow> pyval \<Rightarrow> ustring option \<Rightarrow> ustring \<Rightarrow> ustring \<Rightarrow> int \<Rightarrow> net_call list \<times> (py_exc + ustring)" where
  "generate_summary E TEMPLATE API_KEY text audience len =
     (case build_prompt E TEMPLATE text audience len of
        Inl e \<Rightarrow> ([], Inl e)
      | Inr prompt \<Rightarrow>
          (case subscript_str TEMPLATE (ascii ''system_prompt'') of
             Inl e \<Rightarrow> ([], Inl e)
           | Inr sys \<Rightarrow>
               ([POST (make_request API_KEY sys prompt)],
                (case request_completion E (make_request API_KEY sys prompt) of
                   Inl e \<Rightarrow> Inr (err_prefix @ exc_str E e)
                 | Inr summary \<Rightarrow> Inr summary))))"

section \<open>The template file\<close>

text \<open>
  Lines 25 and 26: \<open>with open('template.json') as f: TEMPLATE = json.load(f)\<close>.
  Opening and reading the file, and decoding its text, are the interpreter's.
\<close>

record startup =
  open_read :: "ustring \<Rightarrow> py_exc + ustring"
  json_loads :: "ustring \<Rightarrow> py_exc + pyval"

definition load_template :: "startup \<Rightarrow> py_exc + pyval" where
  "load_template S = and_then (open_read S (ascii ''template.json'')) (json_loads S)"

section \<open>The button handler\<close>

datatype directive =
    Spinner ustring
  | Warning ustring
  | Error ustring
  | Success ustring
  | Subheader ustring
  | Markdown ustring

text \<open>
  One run of the handler: the network calls made, what was put on the page, and
  whether \<open>st.stop()\<close> ended the script.
\<close>

record run =
  net_calls :: "net_call list"
  shown :: "directive list"
  halted :: bool

definition audience_labels :: "ustring list" where
  "audience_labels =
     [ascii ''Beginner-Friendly'', ascii ''Technical'', ascii ''Concise'', ascii ''Detailed'']"

definition div_open :: ustring where
  "div_open = ascii ''<div style='background:rgba(255,255,255,0.1); padding:20px; border-radius:10px;'>''"

definition div_close :: ustring where
  "div_close = ascii ''</div>''"

text \<open>Lines 142 to 150, under the \<open>except\<close> of lines 152 and 153.\<close>

definition summarize_step ::
  "env \<Rightarrow> pyval \<Rightarrow> ustring option \<Rightarrow> ustring \<Rightarrow> ustring \<Rightarrow> int \<Rightarrow> run" where
  "summarize_step E TEMPLATE API_KEY text audience len =
     (case generate_summary E TEMPLATE API_KEY text audience len of
        (calls, Inl e) \<Rightarrow>
          \<lparr>net_calls = calls,
           shown = [Spinner (ascii ''Generating summary (this may take 20-30 seconds)...''),
                    Error (ascii ''Error: '' @ exc_str E e)],
           halted = False\<rparr>
      | (calls, Inr summary) \<Rightarrow>
          \<lparr>net_calls = calls,
           shown = [Spinner (ascii ''Generating summary (this may take 20-30 seconds)...''),
                    Success (ascii ''Summary Generated!''),
                    Subheader (ascii ''Research Summary''),
                    Markdown (div_open @ summary @ div_close)],
           halted = False\<rparr>)"

text \<open>Lines 131 to 153, for one press of the button.\<close>

definition generate_button ::
  "env \<Rightarrow> pyval \<Rightarrow> ustring option \<Rightarrow> ustring \<Rightarrow> ustring \<Rightarrow> int \<Rightarrow> run" where
  "generate_button E TEMPLATE API_KEY url audience len =
     (if url = [] then
        \<lparr>net_calls = [], shown = [Warning (ascii ''Please enter a PDF URL'')], halted = False\<rparr>
      else
        (case extract_text_from_pdf E url of
           (calls, Inl e) \<Rightarrow>
             \<lparr>net_calls = calls,
              shown = [Spinner (ascii ''Downloading and processing paper...''),
                       Error (ascii ''Error: '' @ exc_str E e)],
              halted = False\<rparr>
         | (calls, Inr text) \<Rightarrow>
             if text = [] then
               \<lparr>net_calls = calls,
                shown = [Spinner (ascii ''Downloading and processing paper...''),
                         Error (ascii ''Failed to extract text from PDF'')],
                halted = True\<rparr>
             else
               (let r = summarize_step E TEMPLATE API_KEY text audience len
                in \<lparr>net_calls = calls @ net_calls r,
                    shown = Spinner (ascii ''Downloading and processing paper...'') # shown r,
                    halted = halted r\<rparr>)))"

section \<open>Format strings by their parts\<close>

text \<open>
  A format string with bare fields only, written as its parts: literal text (whose
  braces appear doubled in the format string) and fields \<open>{name}\<close>.
\<close>

datatype segment = Lit ustring | Field ustring

definition escape_braces :: "ustring \<Rightarrow> ustring" where
  "escape_braces s = concat (map (\<lambda>c. if c = lbrace \<or> c = rbrace then [c, c] else [c]) s)"

fun segment_text :: "segment \<Rightarrow> ustring" where
  "segment_text (Lit s) = escape_braces s"
| "segment_text (Field k) = lbrace # k @ [rbrace]"

definition template_text :: "segment list \<Rightarrow> ustring" where
  "template_text segs = concat (map segment_text segs)"

fun field_names :: "segment list \<Rightarrow> ustring list" where
  "field_names [] = []"
| "field_names (Lit s # segs) = field_names segs"
| "field_names (Field k # segs) = k # field_names segs"

fun fill :: "(ustring \<times> ustring) list \<Rightarrow> segment \<Rightarrow> ustring" where
  "fill kw (Lit s) = s"
| "fill kw (Field k) = (case map_of kw k of None \<Rightarrow> [] | Some v \<Rightarrow> v)"

text \<open>
  Characters that neither end a field name nor open a bracketed part of it, and
  those that may stand in the first part of a name. A name that makes the field
  \<open>{name}\<close> a bare keyword starts with an ASCII character that is not a digit and
  has only characters of the second kind.
\<close>

definition path_char :: "uchar \<Rightarrow> bool" where
  "path_char c \<longleftrightarrow> c \<noteq> lbrace \<and> c \<noteq> rbrace \<and> c \<noteq> lbracket \<and> c \<noteq> bang \<and> c \<noteq> colon"

definition name_char :: "uchar \<Rightarrow> bool" where
  "name_char c \<longleftrightarrow> path_char c \<and> c \<noteq> dot"

definition plain_name :: "ustring \<Rightarrow> bool" where
  "plain_name k \<longleftrightarrow>
     (case k of [] \<Rightarrow> False | c # _ \<Rightarrow> c < 128 \<and> \<not> is_digit c) \<and> list_all name_char k"

text \<open>
  What may follow the name inside a field: a conversion \<open>!c\<close>, a format
  specification \<open>:spec\<close>, and the closing brace.
\<close>

definition field_tail :: "uchar option \<Rightarrow> ustring option \<Rightarrow> ustring" where
  "field_tail conv spec =
     (case conv of None \<Rightarrow> [] | Some c \<Rightarrow> [bang, c]) @
     (case spec of None \<Rightarrow> [] | Some s \<Rightarrow> colon # s) @ [rbrace]"

definition brace_free :: "ustring \<Rightarrow> bool" where
  "brace_free s \<longleftrightarrow> list_all (\<lambda>c. c \<noteq> lbrace \<and> c \<noteq> rbrace) s"

text \<open>Concrete collaborators and templates for the examples.\<close>

definition ok_response :: "pyval \<Rightarrow> response" where
  "ok_response body = \<lparr>status_code = 200, content = [], json_body = Inr body\<rparr>"

definition stub_body :: pyval where
  "stub_body =
     PDict [(ascii ''choices'',
       PList [PDict [(ascii ''message'', PDict [(ascii ''content'', PStr (ascii '' Hello world. ''))])]])]"

definition fetched :: response where
  "fetched = \<lparr>status_code = 200, content = [], json_body = Inl (JSONDecodeError [])\<rparr>"

definition stub_env :: "(py_exc + response) \<Rightarrow> (py_exc + page list) \<Rightarrow> env" where
  "stub_env posted decoded =
     \<lparr>requests_get = (\<lambda>url. Inr fetched),
      requests_post = (\<lambda>req. posted),
      PdfReader = (\<lambda>b. decoded),
      exc_str = (\<lambda>e. case e of HTTPError n \<Rightarrow> str_int (int n) | _ \<Rightarrow> ascii ''failure''),
      unicode_decimal = (\<lambda>c. None),
      ssize_t_max = 9223372036854775807,
      render_field = (\<lambda>v path conv spec kw. Inl ValueError)\<rparr>"

definition stub_startup :: "(py_exc + ustring) \<Rightarrow> (py_exc + pyval) \<Rightarrow> startup" where
  "stub_startup opened decoded = \<lparr>open_read = (\<lambda>path. opened), json_loads = (\<lambda>t. decoded)\<rparr>"

definition status_response :: "nat \<Rightarrow> pyval \<Rightarrow> response" where
  "status_response code body = \<lparr>status_code = code, content = [], json_body = Inr body\<rparr>"

definition stub_template :: "ustring \<Rightarrow> pyval" where
  "stub_template fmt =
     PDict [(ascii ''system_prompt'', PStr (ascii ''You summarise papers.'')),
            (ascii ''prompt_template'', PStr fmt)]"

section \<open>The extractor\<close>

lemma pages_loop_all:
  "pages_loop acc (map Inr ts) = Inr (acc @ concat (map (\<lambda>t. t @ [newline]) ts))"
  by (induction ts arbitrary: acc) simp_all

lemma extract_valid:
  assumes "requests_get E url = Inr resp" and "PdfReader E (content resp) = Inr (map Inr ts)"
  shows "snd (extract_text_from_pdf E url) = Inr (take 3000 (concat (map (\<lambda>t. t @ [newline]) ts)))"
  using assms by (simp add: extract_text_from_pdf_def pages_loop_all truncation_cap_def)

lemma pages_loop_replicate:
  "pages_loop acc (replicate n (Inr [])) = Inr (acc @ replicate n newline)"
proof -
  have "replicate n (Inr [] :: page) = map Inr (replicate n [])" by simp
  moreover have "concat (map (\<lambda>t. t @ [newline]) (replicate n ([]::ustring))) = replicate n newline"
    by (induction n) simp_all
  ultimately show ?thesis by (simp only: pages_loop_all)
qed

lemma extract_empty_pages:
  assumes "requests_get E url = Inr resp" and "PdfReader E (content resp) = Inr (replicate n (Inr []))"
  shows "snd (extract_text_from_pdf E url) = Inr (replicate (min n 3000) newline)"
  using assms
  by (simp add: extract_text_from_pdf_def pages_loop_replicate truncation_cap_def min.commute)

lemma stub_env_simps [simp]:
  "requests_get (stub_env posted decoded) url = Inr fetched"
  "requests_post (stub_env posted decoded) req = posted"
  "PdfReader (stub_env posted decoded) b = decoded"
  by (simp_all add: stub_env_def)

lemma ascii_eq_Nil [simp]: "ascii s = [] \<longleftrightarrow> s = []"
  by (simp add: ascii_def)

lemma is_space_newline: "is_space newline"
  by (simp add: is_space_def newline_def)

lemma strip_all_space:
  assumes "list_all is_space s"
  shows "strip s = []"
proof -
  from assms have "dropWhile is_space s = []"
    by (simp add: list_all_iff)
  show ?thesis unfolding strip_def \<open>dropWhile is_space s = []\<close> by simp
qed

text \<open>
  C3. Whatever is fetched, a string that \<open>extract_text_from_pdf\<close> returns has at most
  3000 characters. For a document whose pages all extract, the returned string is
  the first 3000 characters of the concatenation of the page texts (each followed by
  a newline): when the concatenation is longer than 3000 characters the result has
  exactly 3000 characters and agrees with the concatenation at every position.
\<close>

theorem extract_truncates_to_3000:
  "(\<forall>s. snd (extract_text_from_pdf E url) = Inr s \<longrightarrow> length s \<le> 3000) \<and>
   (requests_get E url = Inr resp \<longrightarrow> PdfReader E (content resp) = Inr (map Inr ts) \<longrightarrow>
      snd (extract_text_from_pdf E url) = Inr (take 3000 (concat (map (\<lambda>t. t @ [newline]) ts))) \<and>
      (3000 < length (concat (map (\<lambda>t. t @ [newline]) ts)) \<longrightarrow>
         length (take 3000 (concat (map (\<lambda>t. t @ [newline]) ts))) = 3000 \<and>
         (\<forall>i<3000. take 3000 (concat (map (\<lambda>t. t @ [newline]) ts)) ! i
                     = concat (map (\<lambda>t. t @ [newline]) ts) ! i)))"
proof (intro conjI allI impI)
  fix s assume "snd (extract_text_from_pdf E url) = Inr s"
  then show "length s \<le> 3000"
    by (auto simp: extract_text_from_pdf_def truncation_cap_def split: sum.splits)
next
  assume "requests_get E url = Inr resp" "PdfReader E (content resp) = Inr (map Inr ts)"
  then show "snd (extract_text_from_pdf E url) = Inr (take 3000 (concat (map (\<lambda>t. t @ [newline]) ts)))"
    by (rule extract_valid)
next
  assume "3000 < length (concat (map (\<lambda>t. t @ [newline]) ts))"
  then show "length (take 3000 (concat (map (\<lambda>t. t @ [newline]) ts))) = 3000"
    by simp
next
  fix i :: nat assume "i < 3000"
  then show "take 3000 (concat (map (\<lambda>t. t @ [newline]) ts)) ! i
                     = concat (map (\<lambda>t. t @ [newline]) ts) ! i"
    by simp
qed

theorem extract_truncates_to_3000_witness:
  "snd (extract_text_from_pdf (stub_env (Inl IndexError) (Inr [Inr (replicate 3001 97)])) (ascii ''u''))
     = Inr (replicate 3000 97) \<and>
   length (replicate 3000 (97 :: uchar)) \<le> 3000"
  using extract_truncates_to_3000
    [of "stub_env (Inl IndexError) (Inr [Inr (replicate 3001 97)])" "ascii ''u''" fetched
        "[replicate 3001 97]"]
  by (simp add: stub_env_def)

text \<open>
  C4. For a document of N pages that all extract, the loop builds, before the
  truncation, N segments in document order, the i-th being the text of page i
  followed by one newline (the last page included); \<open>extract_text_from_pdf\<close> returns
  the first 3000 characters of their concatenation.
\<close>

theorem pages_joined_with_newlines:
  "pages_loop [] (map Inr ts) = Inr (concat (map (\<lambda>t. t @ [newline]) ts)) \<and>
   length (map (\<lambda>t. t @ [newline]) ts) = length ts \<and>
   (requests_get E url = Inr resp \<longrightarrow> PdfReader E (content resp) = Inr (map Inr ts) \<longrightarrow>
      snd (extract_text_from_pdf E url) = Inr (take 3000 (concat (map (\<lambda>t. t @ [newline]) ts))))"
  using extract_valid [of E url resp ts] by (simp add: pages_loop_all)

theorem pages_joined_with_newlines_witness:
  "pages_loop [] [Inr (ascii ''ab''), Inr [], Inr (ascii ''c'')]
     = Inr (ascii ''ab'' @ [newline] @ [newline] @ ascii ''c'' @ [newline]) \<and>
   snd (extract_text_from_pdf
          (stub_env (Inl IndexError) (Inr [Inr (ascii ''ab''), Inr [], Inr (ascii ''c'')]))
          (ascii ''u''))
     = Inr (ascii ''ab'' @ [newline] @ [newline] @ ascii ''c'' @ [newline])"
  using pages_joined_with_newlines
    [of "[ascii ''ab'', [], ascii ''c'']"
        "stub_env (Inl IndexError) (Inr [Inr (ascii ''ab''), Inr [], Inr (ascii ''c'')])"
        "ascii ''u''" fetched]
  by (simp add: stub_env_def ascii_def)

text \<open>
  C5 (as the code has it). When the decoder rejects the fetched bytes, its exception
  leaves \<open>extract_text_from_pdf\<close>. A document with no pages is not an error of
  \<open>extract_text_from_pdf\<close>: the loop runs zero times and the empty string is
  returned. It is the button handler that then reports
  "Failed to extract text from PDF" and stops the script, after the one GET.
\<close>

theorem decode_failure_and_zero_pages:
  "(requests_get E url = Inr resp \<longrightarrow> PdfReader E (content resp) = Inl e \<longrightarrow>
      snd (extract_text_from_pdf E url) = Inl e) \<and>
   (requests_get E url = Inr resp \<longrightarrow> PdfReader E (content resp) = Inr [] \<longrightarrow>
      snd (extract_text_from_pdf E url) = Inr [] \<and>
      (url \<noteq> [] \<longrightarrow>
         generate_button E TEMPLATE API_KEY url audience len =
           \<lparr>net_calls = [GET url],
            shown = [Spinner (ascii ''Downloading and processing paper...''),
                     Error (ascii ''Failed to extract text from PDF'')],
            halted = True\<rparr>))"
  by (simp add: extract_text_from_pdf_def generate_button_def)

theorem decode_failure_and_zero_pages_witness:
  "snd (extract_text_from_pdf (stub_env (Inl IndexError) (Inl (PdfReadError (ascii ''EOF marker not found'')))) (ascii ''u''))
     = Inl (PdfReadError (ascii ''EOF marker not found'')) \<and>
   halted (generate_button (stub_env (Inl IndexError) (Inr [])) (stub_template []) None (ascii ''u'')
             (ascii ''Technical'') 5)"
  using decode_failure_and_zero_pages
      [of "stub_env (Inl IndexError) (Inl (PdfReadError (ascii ''EOF marker not found'')))"
          "ascii ''u''" fetched "PdfReadError (ascii ''EOF marker not found'')"]
    decode_failure_and_zero_pages
      [of "stub_env (Inl IndexError) (Inr [])" "ascii ''u''" fetched _ "stub_template []" None
          "ascii ''Technical''" 5]
  by simp

text \<open>
  C5 as stated fails: for a decoded document with zero pages \<open>extract_text_from_pdf\<close>
  returns the empty string and raises nothing.
\<close>

theorem zero_pages_counterexample:
  "snd (extract_text_from_pdf (stub_env (Inl IndexError) (Inr [])) (ascii ''u'')) = Inr []"
  by (simp add: extract_text_from_pdf_def)

text \<open>
  C8. With an empty URL the handler shows the warning and nothing else: no network
  call is made (neither the GET of \<open>extract_text_from_pdf\<close> nor the POST of
  \<open>generate_summary\<close>), whatever the collaborators would have answered, and the
  script is not stopped.
\<close>

theorem empty_url_warns_without_calls:
  "generate_button E TEMPLATE API_KEY [] audience len =
     \<lparr>net_calls = [], shown = [Warning (ascii ''Please enter a PDF URL'')], halted = False\<rparr>"
  by (simp add: generate_button_def)

theorem empty_url_warns_without_calls_witness:
  "net_calls (generate_button (stub_env (Inr (ok_response stub_body)) (Inr [Inr (ascii ''paper'')]))
                (stub_template (ascii ''{text}'')) None [] (ascii ''Technical'') 5) = [] \<and>
   \<not> halted (generate_button (stub_env (Inr (ok_response stub_body)) (Inr [Inr (ascii ''paper'')]))
                (stub_template (ascii ''{text}'')) None [] (ascii ''Technical'') 5)"
  using empty_url_warns_without_calls
    [of "stub_env (Inr (ok_response stub_body)) (Inr [Inr (ascii ''paper'')])"
        "stub_template (ascii ''{text}'')" None "ascii ''Technical''" 5]
  by simp

text \<open>
  C10 (as the code has it). For a document of N pages, N at least 1, whose pages all
  extract to the empty string, \<open>extract_text_from_pdf\<close> returns min N 3000 newline
  characters: a string that is not empty and is all whitespace. The handler's
  empty-text check does not fire, "Failed to extract text from PDF" is not shown, and
  the run goes on with \<open>generate_summary\<close> on that string.
\<close>

theorem empty_pages_reach_summarizer:
  assumes "1 \<le> n" and "url \<noteq> []"
    and "requests_get E url = Inr resp"
    and "PdfReader E (content resp) = Inr (replicate n (Inr []))"
  shows "snd (extract_text_from_pdf E url) = Inr (replicate (min n 3000) newline) \<and>
         replicate (min n 3000) newline \<noteq> [] \<and>
         strip (replicate (min n 3000) newline) = [] \<and>
         generate_button E TEMPLATE API_KEY url audience len =
           \<lparr>net_calls = GET url #
              net_calls (summarize_step E TEMPLATE API_KEY (replicate (min n 3000) newline) audience len),
            shown = Spinner (ascii ''Downloading and processing paper...'') #
              shown (summarize_step E TEMPLATE API_KEY (replicate (min n 3000) newline) audience len),
            halted = halted (summarize_step E TEMPLATE API_KEY (replicate (min n 3000) newline) audience len)\<rparr> \<and>
         Error (ascii ''Failed to extract text from PDF'')
           \<notin> set (shown (generate_button E TEMPLATE API_KEY url audience len))"
proof -
  let ?t = "replicate (min n 3000) newline"
  have ex: "snd (extract_text_from_pdf E url) = Inr ?t"
    using assms(3,4) by (rule extract_empty_pages)
  have mn: "min n 3000 \<noteq> 0" using assms(1) by simp
  then have ne: "?t \<noteq> []" by simp
  have st: "strip ?t = []"
    by (rule strip_all_space) (simp add: list_all_iff is_space_newline)
  have fs: "fst (extract_text_from_pdf E url) = [GET url]"
    by (simp add: extract_text_from_pdf_def)
  from ex fs have pr: "extract_text_from_pdf E url = ([GET url], Inr ?t)"
    by (metis prod.collapse)
  have gb: "generate_button E TEMPLATE API_KEY url audience len =
           \<lparr>net_calls = GET url # net_calls (summarize_step E TEMPLATE API_KEY ?t audience len),
            shown = Spinner (ascii ''Downloading and processing paper...'') #
              shown (summarize_step E TEMPLATE API_KEY ?t audience len),
            halted = halted (summarize_step E TEMPLATE API_KEY ?t audience len)\<rparr>"
    using assms(2) by (simp add: generate_button_def pr Let_def mn)
  have nf: "Error (ascii ''Failed to extract text from PDF'')
           \<notin> set (shown (summarize_step E TEMPLATE API_KEY ?t audience len))"
    by (auto simp: summarize_step_def ascii_def split: prod.splits sum.splits)
  from ex ne st gb nf show ?thesis by simp
qed

theorem empty_pages_reach_summarizer_witness:
  "snd (extract_text_from_pdf (stub_env (Inr (ok_response stub_body)) (Inr (replicate 2 (Inr []))))
          (ascii ''u'')) = Inr [newline, newline] \<and>
   net_calls (generate_button (stub_env (Inr (ok_response stub_body)) (Inr (replicate 2 (Inr []))))
       (stub_template (ascii ''{text}'')) None (ascii ''u'') (ascii ''Technical'') 5)
     = GET (ascii ''u'') #
       net_calls (summarize_step (stub_env (Inr (ok_response stub_body)) (Inr (replicate 2 (Inr []))))
         (stub_template (ascii ''{text}'')) None [newline, newline] (ascii ''Technical'') 5)"
  using empty_pages_reach_summarizer
    [of 2 "ascii ''u''" "stub_env (Inr (ok_response stub_body)) (Inr (replicate 2 (Inr [])))" fetched
        "stub_template (ascii ''{text}'')" None "ascii ''Technical''" 5]
  by (simp add: numeral_2_eq_2)

text \<open>
  C10 as stated fails beyond the cap: 3001 empty pages give 3000 newlines, not 3001.
\<close>

theorem empty_pages_counterexample:
  "snd (extract_text_from_pdf (stub_env (Inl IndexError) (Inr (replicate 3001 (Inr [])))) (ascii ''u''))
     \<noteq> Inr (replicate 3001 newline)"
proof -
  have "snd (extract_text_from_pdf (stub_env (Inl IndexError) (Inr (replicate 3001 (Inr [])))) (ascii ''u''))
          = Inr (replicate (min 3001 3000) newline)"
    by (rule extract_empty_pages [where resp = fetched]) simp_all
  moreover have "length (replicate (min 3001 3000) newline) \<noteq> length (replicate 3001 newline)"
    by simp
  ultimately show ?thesis by (metis sum.inject(2))
qed

section \<open>The formatter\<close>

lemma prepend_Nil [simp]: "prepend [] r = r"
  by (simp add: prepend_def split: sum.splits)

lemma prepend_prepend [simp]: "prepend a (prepend b r) = prepend (a @ b) r"
  by (simp add: prepend_def split: sum.splits)

lemma prepend_Inr [simp]: "prepend a (Inr s) = Inr (a @ s)"
  by (simp add: prepend_def)

lemma prepend_Inl [simp]: "prepend a (Inl e) = Inl e"
  by (simp add: prepend_def)

lemma brace_chars:
  "lbrace \<noteq> rbrace" "colon \<noteq> rbrace" "bang \<noteq> rbrace" "colon \<noteq> lbrace" "bang \<noteq> lbrace"
  "bang \<noteq> colon"
  by (simp_all add: lbrace_def rbrace_def colon_def bang_def)

lemma scan_name_path:
  assumes "list_all path_char xs" and "t = rbrace \<or> t = colon \<or> t = bang"
  shows "scan_name acc False (xs @ t # rest) = Inr (acc @ xs, t, rest)"
  using assms
proof (induction xs arbitrary: acc)
  case Nil
  then show ?case using brace_chars by (auto simp: lbracket_def rbrace_def colon_def bang_def)
next
  case (Cons x xs)
  from Cons.prems have x: "path_char x" and xs: "list_all path_char xs" by simp_all
  have ih: "scan_name (acc @ [x]) False (xs @ t # rest) = Inr ((acc @ [x]) @ xs, t, rest)"
    using xs Cons.prems(2) by (rule Cons.IH)
  from x have "x \<noteq> lbrace" "x \<noteq> lbracket" "\<not> (x = rbrace \<or> x = colon \<or> x = bang)"
    by (simp_all add: path_char_def)
  then show ?case using ih by simp
qed

lemma scan_spec_plain:
  assumes "brace_free s"
  shows "scan_spec (Suc 0) acc (s @ rbrace # rest) = Inr (acc @ s, rest)"
  using assms
proof (induction s arbitrary: acc)
  case Nil
  then show ?case using brace_chars by simp
next
  case (Cons x s)
  then have "x \<noteq> lbrace" "x \<noteq> rbrace" "brace_free s" by (simp_all add: brace_free_def)
  with Cons.IH [of "acc @ [x]"] show ?case by simp
qed

lemma parse_field_tail:
  assumes "list_all path_char name" and "\<forall>s. spec = Some s \<longrightarrow> brace_free s"
  shows "parse_field (name @ field_tail conv spec @ rest)
           = Inr (name, conv, (case spec of None \<Rightarrow> [] | Some s \<Rightarrow> s), rest)"
proof (cases conv)
  case None
  show ?thesis
  proof (cases spec)
    case n: None
    have "scan_name [] False (name @ rbrace # rest) = Inr ([] @ name, rbrace, rest)"
      using assms(1) by (rule scan_name_path) simp
    with None n show ?thesis by (simp add: parse_field_def field_tail_def)
  next
    case (Some s)
    with assms(2) have bf: "brace_free s" by simp
    have "scan_name [] False (name @ colon # s @ rbrace # rest) = Inr ([] @ name, colon, s @ rbrace # rest)"
      using assms(1) by (rule scan_name_path) simp
    with None Some scan_spec_plain [OF bf, of "[]" rest] brace_chars show ?thesis
      by (simp add: parse_field_def field_tail_def)
  qed
next
  case (Some c)
  show ?thesis
  proof (cases spec)
    case None
    have "scan_name [] False (name @ bang # c # rbrace # rest) = Inr ([] @ name, bang, c # rbrace # rest)"
      using assms(1) by (rule scan_name_path) simp
    with Some None brace_chars show ?thesis by (simp add: parse_field_def field_tail_def)
  next
    case s: (Some s)
    with assms(2) have bf: "brace_free s" by simp
    have "scan_name [] False (name @ bang # c # colon # s @ rbrace # rest)
            = Inr ([] @ name, bang, c # colon # s @ rbrace # rest)"
      using assms(1) by (rule scan_name_path) simp
    with Some s scan_spec_plain [OF bf, of "[]" rest] brace_chars show ?thesis
      by (simp add: parse_field_def field_tail_def)
  qed
qed

lemma plain_name_Cons: "plain_name k \<Longrightarrow> \<exists>c cs. k = c # cs \<and> c < 128 \<and> \<not> is_digit c \<and> c \<noteq> lbrace"
  by (cases k) (auto simp: plain_name_def name_char_def path_char_def)

lemma first_of_name:
  assumes "plain_name key" and "path = [] \<or> hd path = dot"
  shows "takeWhile (\<lambda>c. c \<noteq> dot \<and> c \<noteq> lbracket) (key @ path) = key"
    and "dropWhile (\<lambda>c. c \<noteq> dot \<and> c \<noteq> lbracket) (key @ path) = path"
proof -
  from assms(1) have k: "\<forall>c\<in>set key. c \<noteq> dot \<and> c \<noteq> lbracket"
    by (auto simp: plain_name_def name_char_def path_char_def list_all_iff)
  from assms(2) have p: "takeWhile (\<lambda>c. c \<noteq> dot \<and> c \<noteq> lbracket) path = []"
    "dropWhile (\<lambda>c. c \<noteq> dot \<and> c \<noteq> lbracket) path = path"
    by (cases path; auto)+
  from k p show "takeWhile (\<lambda>c. c \<noteq> dot \<and> c \<noteq> lbracket) (key @ path) = key"
    by (simp add: takeWhile_append2)
  from k p show "dropWhile (\<lambda>c. c \<noteq> dot \<and> c \<noteq> lbracket) (key @ path) = path"
    by (simp add: dropWhile_append2)
qed

lemma get_integer_plain: "plain_name key \<Longrightarrow> get_integer E 0 key = Inr None"
  by (cases key) (auto simp: plain_name_def decimal_value_def)

lemma field_value_missing:
  assumes "plain_name key" and "path = [] \<or> hd path = dot" and "map_of kw key = None"
  shows "field_value E kw (key @ path) conv spec = Inl (KeyError (PStr key))"
proof -
  from assms(1) have ne: "key \<noteq> []" by (auto simp: plain_name_def)
  show ?thesis
    unfolding field_value_def first_of_name [OF assms(1,2)] Let_def
    using ne assms(3) by (simp add: get_integer_plain [OF assms(1)])
qed

lemma field_value_plain:
  assumes "plain_name key" and "map_of kw key = Some v"
  shows "field_value E kw key None [] = Inr v"
proof -
  from assms(1) have ne: "key \<noteq> []" by (auto simp: plain_name_def)
  have "key @ [] = key" by simp
  with first_of_name [OF assms(1), of "[]"]
  have f: "takeWhile (\<lambda>c. c \<noteq> dot \<and> c \<noteq> lbracket) key = key"
    "dropWhile (\<lambda>c. c \<noteq> dot \<and> c \<noteq> lbracket) key = []"
    by simp_all
  show ?thesis
    unfolding field_value_def f Let_def
    using ne assms(2) by (simp add: get_integer_plain [OF assms(1)])
qed

lemma plain_name_path: "plain_name k \<Longrightarrow> list_all path_char k"
  by (auto simp: plain_name_def name_char_def list_all_iff)

lemma format_str_open:
  assumes "s \<noteq> []" and "hd s \<noteq> lbrace"
  shows "format_str E kw (lbrace # s) =
           (case parse_field s of
              Inl e \<Rightarrow> Inl e
            | Inr (name, conv, spec, rest) \<Rightarrow>
                (case field_value E kw name conv spec of
                   Inl e \<Rightarrow> Inl e
                 | Inr v \<Rightarrow> prepend v (format_str E kw rest)))"
  using assms brace_chars by (cases s) (simp_all add: format_str.simps)

lemma format_str_field:
  assumes "plain_name k"
  shows "format_str E kw (lbrace # k @ rbrace # rest) =
           (case map_of kw k of
              None \<Rightarrow> Inl (KeyError (PStr k))
            | Some v \<Rightarrow> prepend v (format_str E kw rest))"
proof -
  from plain_name_Cons [OF assms] have o: "k @ rbrace # rest \<noteq> []" "hd (k @ rbrace # rest) \<noteq> lbrace"
    by auto
  have p: "parse_field (k @ rbrace # rest) = Inr (k, None, [], rest)"
    using parse_field_tail [OF plain_name_path [OF assms], of None None rest]
    by (simp add: field_tail_def)
  show ?thesis
  proof (cases "map_of kw k")
    case None
    with field_value_missing [OF assms, of "[]" kw E None "[]"] show ?thesis
      by (simp add: format_str_open [OF o] p)
  next
    case (Some v)
    with field_value_plain [OF assms Some, of E] show ?thesis
      by (simp add: format_str_open [OF o] p)
  qed
qed

lemma format_str_unknown_key:
  assumes "plain_name key" and "path = [] \<or> hd path = dot" and "list_all path_char path"
    and "\<forall>s. spec = Some s \<longrightarrow> brace_free s" and "map_of kw key = None"
  shows "format_str E kw (lbrace # key @ path @ field_tail conv spec @ rest)
           = Inl (KeyError (PStr key))"
proof -
  from plain_name_Cons [OF assms(1)]
  have o: "(key @ path) @ field_tail conv spec @ rest \<noteq> []"
    "hd ((key @ path) @ field_tail conv spec @ rest) \<noteq> lbrace"
    by auto
  have "list_all path_char (key @ path)"
    using plain_name_path [OF assms(1)] assms(3) by simp
  then have p: "parse_field ((key @ path) @ field_tail conv spec @ rest)
                  = Inr (key @ path, conv, (case spec of None \<Rightarrow> [] | Some s \<Rightarrow> s), rest)"
    using assms(4) by (rule parse_field_tail)
  have "format_str E kw (lbrace # (key @ path) @ field_tail conv spec @ rest)
          = Inl (KeyError (PStr key))"
    by (simp only: format_str_open [OF o] p sum.case prod.case
        field_value_missing [OF assms(1,2,5)])
  then show ?thesis by simp
qed

lemma format_str_escaped:
  "format_str E kw (escape_braces s @ rest) = prepend s (format_str E kw rest)"
proof (induction s)
  case Nil
  then show ?case by (simp add: escape_braces_def)
next
  case (Cons c s)
  have e: "escape_braces (c # s) = (if c = lbrace \<or> c = rbrace then [c, c] else [c]) @ escape_braces s"
    by (simp add: escape_braces_def)
  have lr: "lbrace \<noteq> rbrace" by (simp add: lbrace_def rbrace_def)
  show ?case
  proof (cases "c = lbrace \<or> c = rbrace")
    case True
    then show ?thesis
      using Cons.IH lr by (auto simp: e format_str.simps)
  next
    case False
    then show ?thesis
      using Cons.IH by (simp add: e format_str.simps)
  qed
qed

lemma format_str_segments:
  assumes "\<forall>k\<in>set (field_names segs). plain_name k \<and> map_of kw k \<noteq> None"
  shows "format_str E kw (template_text segs @ rest)
           = prepend (concat (map (fill kw) segs)) (format_str E kw rest)"
  using assms
proof (induction segs)
  case Nil
  then show ?case by (simp add: template_text_def)
next
  case (Cons seg segs)
  show ?case
  proof (cases seg)
    case (Lit s)
    have "template_text (Lit s # segs) @ rest = escape_braces s @ (template_text segs @ rest)"
      by (simp add: template_text_def)
    then have "format_str E kw (template_text (Lit s # segs) @ rest)
                 = prepend s (format_str E kw (template_text segs @ rest))"
      by (simp only: format_str_escaped)
    with Cons Lit show ?thesis by simp
  next
    case (Field k)
    with Cons.prems have pk: "plain_name k" and "map_of kw k \<noteq> None"
      and rest: "\<forall>k\<in>set (field_names segs). plain_name k \<and> map_of kw k \<noteq> None"
      by simp_all
    then obtain v where v: "map_of kw k = Some v" by blast
    have "template_text (Field k # segs) @ rest = lbrace # k @ rbrace # (template_text segs @ rest)"
      by (simp add: template_text_def)
    then have "format_str E kw (template_text (Field k # segs) @ rest)
                 = prepend v (format_str E kw (template_text segs @ rest))"
      by (simp only: format_str_field [OF pk] v option.case)
    with Cons.IH [OF rest] Field v show ?thesis by simp
  qed
qed

lemma in_concat_sublist: "x \<in> set xs \<Longrightarrow> sublist x (concat xs)"
proof -
  assume "x \<in> set xs"
  then obtain a b where "xs = a @ x # b" by (meson split_list)
  then have "concat xs = concat a @ x @ concat b" by simp
  then show ?thesis by (metis sublist_appendI)
qed

lemma field_in_segs: "k \<in> set (field_names segs) \<longleftrightarrow> Field k \<in> set segs"
  by (induction segs rule: field_names.induct) auto

lemma plain_names [simp]:
  "plain_name (ascii ''audience'')" "plain_name (ascii ''length'')" "plain_name (ascii ''text'')"
  by (simp_all add: plain_name_def name_char_def path_char_def is_digit_def ascii_def
      lbrace_def rbrace_def lbracket_def dot_def bang_def colon_def)

lemma kw_lookup [simp]:
  "map_of [(ascii ''audience'', a), (ascii ''length'', l), (ascii ''text'', t)] (ascii ''audience'') = Some a"
  "map_of [(ascii ''audience'', a), (ascii ''length'', l), (ascii ''text'', t)] (ascii ''length'') = Some l"
  "map_of [(ascii ''audience'', a), (ascii ''length'', l), (ascii ''text'', t)] (ascii ''text'') = Some t"
  by (simp_all add: ascii_def)

lemma kw_lookup_other:
  "k \<noteq> ascii ''audience'' \<Longrightarrow> k \<noteq> ascii ''length'' \<Longrightarrow> k \<noteq> ascii ''text'' \<Longrightarrow>
   map_of [(ascii ''audience'', a), (ascii ''length'', l), (ascii ''text'', t)] k = None"
  by simp

lemma str_int_small: "3 \<le> i \<Longrightarrow> i \<le> 10 \<Longrightarrow> str_int i = (if i = 10 then ascii ''10'' else [48 + nat i])"
  by (auto simp: str_int_def digits.simps ascii_def)

lemma stub_prompt_template [simp]:
  "subscript_str (stub_template fmt) (ascii ''prompt_template'') = Inr (PStr fmt)"
  by (simp add: stub_template_def ascii_def)

lemma build_prompt_format:
  assumes "subscript_str TEMPLATE (ascii ''prompt_template'') = Inr (PStr fmt)"
  shows "build_prompt E TEMPLATE text audience len =
           format_str E [(ascii ''audience'', audience),
                         (ascii ''length'', str_int len @ ascii '' sentences''),
                         (ascii ''text'', text)] fmt"
  using assms by (simp add: build_prompt_def and_then_def)

lemma build_prompt_segments:
  assumes "subscript_str TEMPLATE (ascii ''prompt_template'') = Inr (PStr (template_text segs))"
    and "set (field_names segs) \<subseteq> {ascii ''audience'', ascii ''length'', ascii ''text''}"
  shows "build_prompt E TEMPLATE text audience len =
           Inr (concat (map (fill [(ascii ''audience'', audience),
                                   (ascii ''length'', str_int len @ ascii '' sentences''),
                                   (ascii ''text'', text)]) segs))"
proof -
  let ?kw = "[(ascii ''audience'', audience),
              (ascii ''length'', str_int len @ ascii '' sentences''),
              (ascii ''text'', text)]"
  have known: "\<forall>k\<in>set (field_names segs). plain_name k \<and> map_of ?kw k \<noteq> None"
    using assms(2) by auto
  have "format_str E ?kw (template_text segs @ []) = prepend (concat (map (fill ?kw) segs)) (format_str E ?kw [])"
    by (rule format_str_segments [OF known])
  then show ?thesis
    by (simp add: build_prompt_format [OF assms(1)] format_str.simps(1))
qed

lemma three_field_template:
  "template_text [Field (ascii ''audience''), Lit (ascii '' ''), Field (ascii ''length''),
                  Lit (ascii '' ''), Field (ascii ''text'')]
     = ascii ''{audience} {length} {text}''"
  by (simp add: template_text_def escape_braces_def ascii_def lbrace_def rbrace_def)

lemma str_int_5: "str_int 5 = ascii ''5''"
  by (simp add: str_int_def digits.simps ascii_def)

lemma text_only_template: "template_text [Field (ascii ''text'')] = ascii ''{text}''"
  by (simp add: template_text_def ascii_def lbrace_def rbrace_def)

lemma build_text_only:
  "build_prompt E (stub_template (ascii ''{text}'')) t a n = Inr t"
proof -
  have a: "subscript_str (stub_template (ascii ''{text}'')) (ascii ''prompt_template'')
             = Inr (PStr (template_text [Field (ascii ''text'')]))"
    by (simp only: text_only_template stub_prompt_template)
  have "build_prompt E (stub_template (ascii ''{text}'')) t a n =
          Inr (concat (map (fill [(ascii ''audience'', a),
                                  (ascii ''length'', str_int n @ ascii '' sentences''),
                                  (ascii ''text'', t)]) [Field (ascii ''text'')]))"
    using a by (rule build_prompt_segments) simp
  then show ?thesis
    by (simp only: list.map fill.simps kw_lookup option.case concat.simps append_Nil2)
qed

section \<open>The template file and the summary request\<close>

lemma stub_exc_str [simp]:
  "exc_str (stub_env posted decoded) e = (case e of HTTPError n \<Rightarrow> str_int (int n) | _ \<Rightarrow> ascii ''failure'')"
  by (simp add: stub_env_def)

lemma stub_startup_simps [simp]:
  "open_read (stub_startup opened decoded) path = opened"
  "json_loads (stub_startup opened decoded) t = decoded"
  by (simp_all add: stub_startup_def)

lemma stub_system [simp]:
  "subscript_str (stub_template fmt) (ascii ''system_prompt'') = Inr (PStr (ascii ''You summarise papers.''))"
  by (simp add: stub_template_def ascii_def)

lemma stub_body_content:
  "completion_content stub_body = Inr (PStr (ascii '' Hello world. ''))"
  by (simp add: completion_content_def stub_body_def and_then_def ascii_def)

lemma strip_hello: "strip (ascii '' Hello world. '') = ascii ''Hello world.''"
  by (simp add: strip_def ascii_def is_space_def)

lemma generate_summary_posts:
  assumes "build_prompt E TEMPLATE text audience len = Inr prompt"
    and "subscript_str TEMPLATE (ascii ''system_prompt'') = Inr sys"
  shows "generate_summary E TEMPLATE API_KEY text audience len =
           ([POST (make_request API_KEY sys prompt)],
            Inr (case request_completion E (make_request API_KEY sys prompt) of
                   Inl e \<Rightarrow> err_prefix @ exc_str E e | Inr summary \<Rightarrow> summary))"
  using assms by (simp add: generate_summary_def split: sum.splits)

lemma strip_decomposition:
  "\<exists>l r. c = l @ strip c @ r \<and> list_all is_space l \<and> list_all is_space r \<and>
         (strip c \<noteq> [] \<longrightarrow> \<not> is_space (hd (strip c)) \<and> \<not> is_space (last (strip c)))"
proof -
  let ?l = "takeWhile is_space c"
  let ?m = "dropWhile is_space c"
  let ?r = "rev (takeWhile is_space (rev ?m))"
  have m: "?m = strip c @ ?r"
  proof -
    have "rev (rev ?m) = rev (dropWhile is_space (rev ?m)) @ rev (takeWhile is_space (rev ?m))"
      using rev_append [of "takeWhile is_space (rev ?m)" "dropWhile is_space (rev ?m)"]
      by (simp only: takeWhile_dropWhile_id)
    then show ?thesis by (simp only: rev_rev_ident strip_def)
  qed
  have c: "c = ?l @ strip c @ ?r"
    using m takeWhile_dropWhile_id [of is_space c] by metis
  have l: "list_all is_space ?l"
    by (simp add: list_all_iff) (meson set_takeWhileD)
  have r: "list_all is_space ?r"
    by (simp add: list_all_iff) (meson set_takeWhileD)
  have e: "\<not> is_space (hd (strip c)) \<and> \<not> is_space (last (strip c))" if ne: "strip c \<noteq> []"
  proof
    from ne have d: "dropWhile is_space (rev ?m) \<noteq> []" by (simp add: strip_def)
    then have "\<not> is_space (hd (dropWhile is_space (rev ?m)))" by (rule hd_dropWhile)
    with d show "\<not> is_space (last (strip c))" by (simp add: strip_def last_rev)
    from ne m have mne: "?m \<noteq> []" by (metis append_is_Nil_conv)
    then have "\<not> is_space (hd ?m)" by (rule hd_dropWhile)
    moreover from m ne have "hd ?m = hd (strip c)" by (metis hd_append2)
    ultimately show "\<not> is_space (hd (strip c))" by simp
  qed
  from c l r e show ?thesis by blast
qed

text \<open>
  C9 (as the code has it). Loading the template fails, with the exception of the
  failing step, when the file cannot be opened or read and when its text does not
  decode. Whatever value the text decodes to is accepted as the template: no field
  is looked at while loading. A template without \<open>prompt_template\<close> makes the first
  call of \<open>generate_summary\<close> raise \<open>KeyError\<close> before any network call, and one
  without \<open>system_prompt\<close> does so once the prompt has been built.
\<close>

theorem load_template_failures:
  "(open_read S (ascii ''template.json'') = Inl e \<longrightarrow> load_template S = Inl e) \<and>
   (open_read S (ascii ''template.json'') = Inr txt \<longrightarrow> json_loads S txt = Inl e \<longrightarrow>
      load_template S = Inl e) \<and>
   (open_read S (ascii ''template.json'') = Inr txt \<longrightarrow> json_loads S txt = Inr v \<longrightarrow>
      load_template S = Inr v \<and>
      (\<forall>kvs. v = PDict kvs \<longrightarrow> map_of kvs (ascii ''prompt_template'') = None \<longrightarrow>
         generate_summary E v API_KEY text audience len
           = ([], Inl (KeyError (PStr (ascii ''prompt_template''))))) \<and>
      (\<forall>kvs prompt. v = PDict kvs \<longrightarrow> build_prompt E v text audience len = Inr prompt \<longrightarrow>
         map_of kvs (ascii ''system_prompt'') = None \<longrightarrow>
         generate_summary E v API_KEY text audience len
           = ([], Inl (KeyError (PStr (ascii ''system_prompt''))))))"
  by (simp add: load_template_def and_then_def generate_summary_def build_prompt_def)

theorem load_template_failures_witness:
  "load_template (stub_startup (Inl (OSError (ascii ''No such file or directory''))) (Inr PNone))
     = Inl (OSError (ascii ''No such file or directory'')) \<and>
   load_template (stub_startup (Inr (ascii ''{'')) (Inl (JSONDecodeError (ascii ''Expecting property name''))))
     = Inl (JSONDecodeError (ascii ''Expecting property name'')) \<and>
   load_template (stub_startup (Inr (ascii ''{}'')) (Inr (PDict []))) = Inr (PDict []) \<and>
   generate_summary (stub_env (Inr (ok_response stub_body)) (Inr [])) (PDict []) None
       (ascii ''paper'') (ascii ''Technical'') 5
     = ([], Inl (KeyError (PStr (ascii ''prompt_template''))))"
  using load_template_failures
      [of "stub_startup (Inl (OSError (ascii ''No such file or directory''))) (Inr PNone)"
          "OSError (ascii ''No such file or directory'')"]
    load_template_failures
      [of "stub_startup (Inr (ascii ''{'')) (Inl (JSONDecodeError (ascii ''Expecting property name'')))"
          "JSONDecodeError (ascii ''Expecting property name'')" "ascii ''{''"]
    load_template_failures
      [of "stub_startup (Inr (ascii ''{}'')) (Inr (PDict []))" _ "ascii ''{}''" "PDict []"
          "stub_env (Inr (ok_response stub_body)) (Inr [])" None "ascii ''paper''" "ascii ''Technical''" 5]
  by simp

text \<open>
  C9 as stated fails: a file holding \<open>{}\<close> decodes to the empty dictionary and is
  loaded without an error, although both required fields are absent.
\<close>

theorem load_accepts_missing_fields_counterexample:
  "load_template (stub_startup (Inr (ascii ''{}'')) (Inr (PDict []))) = Inr (PDict [])"
  by (simp add: load_template_def and_then_def)

text \<open>
  C1 (as the code has it). Once the prompt has been built and the system prompt
  looked up, \<open>generate_summary\<close> makes one POST and returns a string, whatever the
  POST does. When the POST raises, when the status is a 4xx or 5xx code, when the
  body does not decode, when \<open>choices[0].message.content\<close> cannot be reached (a
  missing \<open>choices\<close> key, for one) and when the content has no \<open>strip\<close>, the string
  is the prefix \<open>err_prefix\<close> followed by \<open>str\<close> of the exception.
\<close>

theorem completion_failures_become_error_strings:
  assumes "build_prompt E TEMPLATE text audience len = Inr prompt"
    and "subscript_str TEMPLATE (ascii ''system_prompt'') = Inr sys"
  shows "\<exists>s. generate_summary E TEMPLATE API_KEY text audience len
               = ([POST (make_request API_KEY sys prompt)], Inr s) \<and>
           (\<forall>e. requests_post E (make_request API_KEY sys prompt) = Inl e \<longrightarrow>
                s = err_prefix @ exc_str E e) \<and>
           (\<forall>resp. requests_post E (make_request API_KEY sys prompt) = Inr resp \<longrightarrow>
              (400 \<le> status_code resp \<and> status_code resp < 600 \<longrightarrow>
                 s = err_prefix @ exc_str E (HTTPError (status_code resp))) \<and>
              (\<not> (400 \<le> status_code resp \<and> status_code resp < 600) \<longrightarrow>
                 (\<forall>e. json_body resp = Inl e \<longrightarrow> s = err_prefix @ exc_str E e) \<and>
                 (\<forall>body e. json_body resp = Inr body \<longrightarrow> completion_content body = Inl e \<longrightarrow>
                    s = err_prefix @ exc_str E e) \<and>
                 (\<forall>kvs. json_body resp = Inr (PDict kvs) \<longrightarrow> map_of kvs (ascii ''choices'') = None \<longrightarrow>
                    s = err_prefix @ exc_str E (KeyError (PStr (ascii ''choices'')))) \<and>
                 (\<forall>body v e. json_body resp = Inr body \<longrightarrow> completion_content body = Inr v \<longrightarrow>
                    strip_method v = Inl e \<longrightarrow> s = err_prefix @ exc_str E e)))"
  unfolding generate_summary_posts [OF assms]
  by (intro exI conjI allI impI, rule refl)
     (auto simp: request_completion_def and_then_def raise_for_status_def completion_content_def)

theorem completion_failures_become_error_strings_witness:
  "generate_summary (stub_env (Inr (status_response 500 PNone)) (Inr []))
       (stub_template (ascii ''{text}'')) None (ascii ''paper'') (ascii ''Technical'') 5
     = ([POST (make_request None (PStr (ascii ''You summarise papers.'')) (ascii ''paper''))],
        Inr (err_prefix @ str_int 500))"
proof -
  from completion_failures_become_error_strings
    [of "stub_env (Inr (status_response 500 PNone)) (Inr [])" _
        "ascii ''paper''" "ascii ''Technical''" 5 _ _ None,
     OF build_text_only stub_system]
  show ?thesis by (auto simp: status_response_def)
qed

text \<open>
  C1 as stated fails for a status outside 2xx that \<open>raise_for_status\<close> lets
  through: a response with status 300 and a well-formed completion body yields the
  completion text, not a string with the error prefix.
\<close>

theorem redirect_status_counterexample:
  "snd (generate_summary (stub_env (Inr (status_response 300 stub_body)) (Inr []))
         (stub_template (ascii ''{text}'')) None (ascii ''paper'') (ascii ''Technical'') 5)
     = Inr (ascii ''Hello world.'') \<and>
   \<not> prefix err_prefix (ascii ''Hello world.'')"
proof -
  have "request_completion (stub_env (Inr (status_response 300 stub_body)) (Inr [])) req
          = Inr (ascii ''Hello world.'')" for req
    by (simp add: request_completion_def and_then_def raise_for_status_def status_response_def
        stub_body_content strip_method_def strip_hello)
  moreover have "\<not> prefix err_prefix (ascii ''Hello world.'')"
    by (simp add: err_prefix_def ascii_def)
  ultimately show ?thesis
    by (simp add: generate_summary_posts [OF build_text_only stub_system])
qed

text \<open>
  C6 (as the code has it). For a response whose status is not a 4xx or 5xx code and
  whose body decodes to a dictionary with, under \<open>choices\<close>, a list whose first
  element is a dictionary with, under \<open>message\<close>, a dictionary with the string \<open>c\<close>
  under \<open>content\<close>, \<open>generate_summary\<close> returns \<open>strip c\<close>: \<open>c\<close> without its leading and
  trailing whitespace, that is, \<open>c\<close> is whitespace, then the result, then
  whitespace, and a non-empty result neither starts nor ends with whitespace. For
  the stub body with content " Hello world. " the result is "Hello world.".
\<close>

theorem summary_is_stripped_content:
  assumes "build_prompt E TEMPLATE text audience len = Inr prompt"
    and "subscript_str TEMPLATE (ascii ''system_prompt'') = Inr sys"
    and "requests_post E (make_request API_KEY sys prompt) = Inr resp"
    and "\<not> (400 \<le> status_code resp \<and> status_code resp < 600)"
    and "json_body resp = Inr (PDict kvs)"
    and "map_of kvs (ascii ''choices'') = Some (PList (PDict ckvs # others))"
    and "map_of ckvs (ascii ''message'') = Some (PDict mkvs)"
    and "map_of mkvs (ascii ''content'') = Some (PStr c)"
  shows "generate_summary E TEMPLATE API_KEY text audience len
           = ([POST (make_request API_KEY sys prompt)], Inr (strip c)) \<and>
         (\<exists>l r. c = l @ strip c @ r \<and> list_all is_space l \<and> list_all is_space r \<and>
            (strip c \<noteq> [] \<longrightarrow> \<not> is_space (hd (strip c)) \<and> \<not> is_space (last (strip c))))"
proof -
  have "completion_content (PDict kvs) = Inr (PStr c)"
    using assms(6-8) by (simp add: completion_content_def and_then_def)
  then have "request_completion E (make_request API_KEY sys prompt) = Inr (strip c)"
    using assms(3-5)
    by (simp add: request_completion_def and_then_def raise_for_status_def strip_method_def)
  then show ?thesis
    using strip_decomposition [of c] by (simp add: generate_summary_posts [OF assms(1,2)])
qed

theorem summary_is_stripped_content_witness:
  "generate_summary (stub_env (Inr (ok_response stub_body)) (Inr []))
       (stub_template (ascii ''{text}'')) None (ascii ''paper'') (ascii ''Technical'') 5
     = ([POST (make_request None (PStr (ascii ''You summarise papers.'')) (ascii ''paper''))],
        Inr (ascii ''Hello world.''))"
proof -
  have "generate_summary (stub_env (Inr (ok_response stub_body)) (Inr []))
       (stub_template (ascii ''{text}'')) None (ascii ''paper'') (ascii ''Technical'') 5
     = ([POST (make_request None (PStr (ascii ''You summarise papers.'')) (ascii ''paper''))],
        Inr (strip (ascii '' Hello world. '')))"
  proof -
    have p: "requests_post (stub_env (Inr (ok_response stub_body)) (Inr [])) req
               = Inr (ok_response stub_body)" for req
      by simp
    have s: "\<not> (400 \<le> status_code (ok_response stub_body) \<and> status_code (ok_response stub_body) < 600)"
      by (simp add: ok_response_def)
    have j: "json_body (ok_response stub_body)
               = Inr (PDict [(ascii ''choices'',
                   PList [PDict [(ascii ''message'',
                     PDict [(ascii ''content'', PStr (ascii '' Hello world. ''))])]])])"
      by (simp add: ok_response_def stub_body_def)
    have c: "map_of [(ascii ''choices'',
                   PList [PDict [(ascii ''message'',
                     PDict [(ascii ''content'', PStr (ascii '' Hello world. ''))])]])] (ascii ''choices'')
               = Some (PList (PDict [(ascii ''message'',
                     PDict [(ascii ''content'', PStr (ascii '' Hello world. ''))])] # []))"
      by simp
    have m: "map_of [(ascii ''message'', PDict [(ascii ''content'', PStr (ascii '' Hello world. ''))])]
                 (ascii ''message'')
               = Some (PDict [(ascii ''content'', PStr (ascii '' Hello world. ''))])"
      by simp
    have t: "map_of [(ascii ''content'', PStr (ascii '' Hello world. ''))] (ascii ''content'')
               = Some (PStr (ascii '' Hello world. ''))"
      by simp
    from summary_is_stripped_content [OF build_text_only stub_system p s j c m t]
    show ?thesis by blast
  qed
  then show ?thesis by (simp only: strip_hello)
qed

text \<open>
  C6 as stated fails when the same body comes with an error status: with status
  500 and the stub body, \<open>raise_for_status\<close> raises before the body is read and the
  result is the error string, not "Hello world.".
\<close>

theorem error_status_counterexample:
  "snd (generate_summary (stub_env (Inr (status_response 500 stub_body)) (Inr []))
         (stub_template (ascii ''{text}'')) None (ascii ''paper'') (ascii ''Technical'') 5)
     = Inr (err_prefix @ str_int 500) \<and>
   err_prefix @ str_int 500 \<noteq> ascii ''Hello world.''"
proof -
  have "request_completion (stub_env (Inr (status_response 500 stub_body)) (Inr [])) req
          = Inl (HTTPError 500)" for req
    by (simp add: request_completion_def and_then_def raise_for_status_def status_response_def)
  moreover have "err_prefix @ str_int 500 \<noteq> ascii ''Hello world.''"
    by (simp add: err_prefix_def ascii_def)
  ultimately show ?thesis
    by (simp add: generate_summary_posts [OF build_text_only stub_system])
qed

section \<open>The prompt\<close>

lemma generate_summary_raises:
  assumes "build_prompt E TEMPLATE text audience len = Inl e"
  shows "generate_summary E TEMPLATE API_KEY text audience len = ([], Inl e)"
    and "summarize_step E TEMPLATE API_KEY text audience len =
           \<lparr>net_calls = [],
            shown = [Spinner (ascii ''Generating summary (this may take 20-30 seconds)...''),
                     Error (ascii ''Error: '' @ exc_str E e)],
            halted = False\<rparr>"
  using assms by (simp_all add: generate_summary_def summarize_step_def)

lemma build_prompt_unknown_key:
  assumes "subscript_str TEMPLATE (ascii ''prompt_template'')
             = Inr (PStr (template_text segs @ lbrace # key @ path @ field_tail conv spec @ rest))"
    and "set (field_names segs) \<subseteq> {ascii ''audience'', ascii ''length'', ascii ''text''}"
    and "plain_name key"
    and "key \<notin> {ascii ''audience'', ascii ''length'', ascii ''text''}"
    and "path = [] \<or> hd path = dot"
    and "list_all path_char path"
    and "\<forall>s. spec = Some s \<longrightarrow> brace_free s"
  shows "build_prompt E TEMPLATE text audience len = Inl (KeyError (PStr key))"
proof -
  let ?kw = "[(ascii ''audience'', audience),
              (ascii ''length'', str_int len @ ascii '' sentences''),
              (ascii ''text'', text)]"
  have known: "\<forall>k\<in>set (field_names segs). plain_name k \<and> map_of ?kw k \<noteq> None"
    using assms(2) by auto
  have miss: "map_of ?kw key = None"
    using assms(4) by (simp add: kw_lookup_other)
  have "format_str E ?kw (template_text segs @ lbrace # key @ path @ field_tail conv spec @ rest)
          = prepend (concat (map (fill ?kw) segs)) (Inl (KeyError (PStr key)))"
    by (simp only: format_str_segments [OF known]
        format_str_unknown_key [OF assms(3) assms(5) assms(6) assms(7) miss])
  then show ?thesis
    by (simp add: build_prompt_format [OF assms(1)])
qed

text \<open>
  C2 (as the code has it). Whatever exception the substitution of the prompt
  raises, it leaves \<open>generate_summary\<close>: the call raises to its caller and makes no
  network call, and it is the handler's \<open>except\<close> that recovers it, showing
  "Error: " followed by \<open>str\<close> of the exception. When the format string, after
  literal text and fields \<open>{audience}\<close>, \<open>{length}\<close>, \<open>{text}\<close>, reaches a field whose
  key starts with an ASCII character that is not a digit and is none of the three
  names (the key alone, or followed by an attribute path, a conversion, a format
  specification without braces), that exception is the \<open>KeyError\<close> of the key.
\<close>

theorem unknown_key_raises_to_handler:
  "(\<forall>e. build_prompt E TEMPLATE text audience len = Inl e \<longrightarrow>
      generate_summary E TEMPLATE API_KEY text audience len = ([], Inl e) \<and>
      summarize_step E TEMPLATE API_KEY text audience len =
        \<lparr>net_calls = [],
         shown = [Spinner (ascii ''Generating summary (this may take 20-30 seconds)...''),
                  Error (ascii ''Error: '' @ exc_str E e)],
         halted = False\<rparr>) \<and>
   (subscript_str TEMPLATE (ascii ''prompt_template'')
      = Inr (PStr (template_text segs @ lbrace # key @ path @ field_tail conv spec @ rest)) \<longrightarrow>
    set (field_names segs) \<subseteq> {ascii ''audience'', ascii ''length'', ascii ''text''} \<longrightarrow>
    plain_name key \<longrightarrow>
    key \<notin> {ascii ''audience'', ascii ''length'', ascii ''text''} \<longrightarrow>
    (path = [] \<or> hd path = dot) \<longrightarrow> list_all path_char path \<longrightarrow>
    (\<forall>s. spec = Some s \<longrightarrow> brace_free s) \<longrightarrow>
      generate_summary E TEMPLATE API_KEY text audience len = ([], Inl (KeyError (PStr key))) \<and>
      summarize_step E TEMPLATE API_KEY text audience len =
        \<lparr>net_calls = [],
         shown = [Spinner (ascii ''Generating summary (this may take 20-30 seconds)...''),
                  Error (ascii ''Error: '' @ exc_str E (KeyError (PStr key)))],
         halted = False\<rparr>)"
proof (intro conjI allI impI)
  fix e assume "build_prompt E TEMPLATE text audience len = Inl e"
  then show "generate_summary E TEMPLATE API_KEY text audience len = ([], Inl e)"
    and "summarize_step E TEMPLATE API_KEY text audience len =
        \<lparr>net_calls = [],
         shown = [Spinner (ascii ''Generating summary (this may take 20-30 seconds)...''),
                  Error (ascii ''Error: '' @ exc_str E e)],
         halted = False\<rparr>"
    by (rule generate_summary_raises)+
next
  assume "subscript_str TEMPLATE (ascii ''prompt_template'')
      = Inr (PStr (template_text segs @ lbrace # key @ path @ field_tail conv spec @ rest))"
    "set (field_names segs) \<subseteq> {ascii ''audience'', ascii ''length'', ascii ''text''}"
    "plain_name key" "key \<notin> {ascii ''audience'', ascii ''length'', ascii ''text''}"
    "path = [] \<or> hd path = dot" "list_all path_char path" "\<forall>s. spec = Some s \<longrightarrow> brace_free s"
  then have b: "build_prompt E TEMPLATE text audience len = Inl (KeyError (PStr key))"
    by (rule build_prompt_unknown_key)
  from b show "generate_summary E TEMPLATE API_KEY text audience len = ([], Inl (KeyError (PStr key)))"
    by (rule generate_summary_raises)
  from b show "summarize_step E TEMPLATE API_KEY text audience len =
        \<lparr>net_calls = [],
         shown = [Spinner (ascii ''Generating summary (this may take 20-30 seconds)...''),
                  Error (ascii ''Error: '' @ exc_str E (KeyError (PStr key)))],
         halted = False\<rparr>"
    by (rule generate_summary_raises)
qed

lemma build_lone_brace:
  "build_prompt E (stub_template (ascii ''} {topic}'')) t a n = Inl ValueError"
  by (simp add: build_prompt_format [OF stub_prompt_template] ascii_def format_str.simps
      lbrace_def rbrace_def)

lemma build_positional:
  "build_prompt E (stub_template (ascii ''{0} {topic}'')) t a n = Inl IndexError"
  by (simp add: build_prompt_format [OF stub_prompt_template] ascii_def format_str.simps
      parse_field_def field_value_def decimal_value_def is_digit_def
      lbrace_def rbrace_def lbracket_def dot_def bang_def colon_def)

theorem unknown_key_raises_to_handler_witness:
  "generate_summary (stub_env (Inr (ok_response stub_body)) (Inr []))
       (stub_template (ascii ''{text} about {topic!r:>10}.'')) None
       (ascii ''paper'') (ascii ''Technical'') 5
     = ([], Inl (KeyError (PStr (ascii ''topic'')))) \<and>
   generate_summary (stub_env (Inr (ok_response stub_body)) (Inr []))
       (stub_template (ascii ''} {topic}'')) None (ascii ''paper'') (ascii ''Technical'') 5
     = ([], Inl ValueError) \<and>
   generate_summary (stub_env (Inr (ok_response stub_body)) (Inr []))
       (stub_template (ascii ''{0} {topic}'')) None (ascii ''paper'') (ascii ''Technical'') 5
     = ([], Inl IndexError)"
proof -
  let ?E = "stub_env (Inr (ok_response stub_body)) (Inr [])"
  have t: "template_text [Field (ascii ''text''), Lit (ascii '' about '')]
             @ lbrace # ascii ''topic'' @ [] @ field_tail (Some 114) (Some (ascii ''>10'')) @ ascii ''.''
           = ascii ''{text} about {topic!r:>10}.''"
    by (simp add: template_text_def escape_braces_def field_tail_def ascii_def lbrace_def rbrace_def
        bang_def colon_def)
  have a: "subscript_str (stub_template (ascii ''{text} about {topic!r:>10}.'')) (ascii ''prompt_template'')
             = Inr (PStr (template_text [Field (ascii ''text''), Lit (ascii '' about '')]
                 @ lbrace # ascii ''topic'' @ [] @ field_tail (Some 114) (Some (ascii ''>10''))
                 @ ascii ''.''))"
    by (simp only: t stub_prompt_template)
  have s: "set (field_names [Field (ascii ''text''), Lit (ascii '' about '')])
             \<subseteq> {ascii ''audience'', ascii ''length'', ascii ''text''}"
    by simp
  have p: "plain_name (ascii ''topic'')"
    by (simp add: plain_name_def name_char_def path_char_def is_digit_def ascii_def
        lbrace_def rbrace_def lbracket_def dot_def bang_def colon_def)
  have n: "ascii ''topic'' \<notin> {ascii ''audience'', ascii ''length'', ascii ''text''}"
    by (simp add: ascii_def)
  have pa: "([]::ustring) = [] \<or> hd ([]::ustring) = dot" "list_all path_char []"
    by simp_all
  have sp: "\<forall>s. Some (ascii ''>10'') = Some s \<longrightarrow> brace_free s"
    by (simp add: brace_free_def ascii_def lbrace_def rbrace_def)
  from unknown_key_raises_to_handler
         [of ?E "stub_template (ascii ''{text} about {topic!r:>10}.'')" "ascii ''paper''"
             "ascii ''Technical''" 5 None "[Field (ascii ''text''), Lit (ascii '' about '')]"
             "ascii ''topic''" "[]" "Some 114" "Some (ascii ''>10'')" "ascii ''.''"]
       a s p n pa sp
  have k: "generate_summary ?E (stub_template (ascii ''{text} about {topic!r:>10}.'')) None
             (ascii ''paper'') (ascii ''Technical'') 5
           = ([], Inl (KeyError (PStr (ascii ''topic''))))"
    by blast
  from unknown_key_raises_to_handler
         [of ?E "stub_template (ascii ''} {topic}'')" "ascii ''paper''" "ascii ''Technical''" 5 None]
       build_lone_brace
  have v: "generate_summary ?E (stub_template (ascii ''} {topic}'')) None
             (ascii ''paper'') (ascii ''Technical'') 5 = ([], Inl ValueError)"
    by blast
  from unknown_key_raises_to_handler
         [of ?E "stub_template (ascii ''{0} {topic}'')" "ascii ''paper''" "ascii ''Technical''" 5 None]
       build_positional
  have i: "generate_summary ?E (stub_template (ascii ''{0} {topic}'')) None
             (ascii ''paper'') (ascii ''Technical'') 5 = ([], Inl IndexError)"
    by blast
  from k v i show ?thesis by blast
qed

text \<open>
  C2 as stated fails: with the format string \<open>{topic}\<close> the result of
  \<open>generate_summary\<close> is a raised \<open>KeyError\<close>, not a returned string.
\<close>

theorem unknown_key_counterexample:
  "generate_summary (stub_env (Inr (ok_response stub_body)) (Inr []))
       (stub_template (ascii ''{topic}'')) None (ascii ''paper'') (ascii ''Technical'') 5
     = ([], Inl (KeyError (PStr (ascii ''topic''))))"
proof -
  have "build_prompt (stub_env (Inr (ok_response stub_body)) (Inr []))
          (stub_template (ascii ''{topic}'')) (ascii ''paper'') (ascii ''Technical'') 5
        = Inl (KeyError (PStr (ascii ''topic'')))"
    by (simp add: build_prompt_format [OF stub_prompt_template] ascii_def format_str.simps
      parse_field_def field_value_def decimal_value_def is_digit_def
      lbrace_def rbrace_def lbracket_def dot_def bang_def colon_def)
  then show ?thesis by (rule generate_summary_raises)
qed

text \<open>
  C7. For a format string made of literal parts and of fields whose names are
  exactly \<open>audience\<close>, \<open>length\<close> and \<open>text\<close>, the prompt is built, and it is the
  format string's literal parts with every field replaced by its value, so that no
  placeholder of the template is left. It contains the decimal length followed by
  " sentences" (for a length from 3 to 10, the digit, or "10"), it contains the
  text, and it contains the audience label.
\<close>

theorem prompt_substitution:
  assumes "subscript_str TEMPLATE (ascii ''prompt_template'') = Inr (PStr (template_text segs))"
    and "set (field_names segs) = {ascii ''audience'', ascii ''length'', ascii ''text''}"
  shows "\<exists>p. build_prompt E TEMPLATE text audience len = Inr p \<and>
           p = concat (map (fill [(ascii ''audience'', audience),
                                  (ascii ''length'', str_int len @ ascii '' sentences''),
                                  (ascii ''text'', text)]) segs) \<and>
           sublist (str_int len @ ascii '' sentences'') p \<and>
           (3 \<le> len \<and> len \<le> 10 \<longrightarrow>
              str_int len = (if len = 10 then ascii ''10'' else [48 + nat len])) \<and>
           sublist text p \<and>
           sublist audience p"
proof -
  let ?kw = "[(ascii ''audience'', audience),
              (ascii ''length'', str_int len @ ascii '' sentences''),
              (ascii ''text'', text)]"
  let ?p = "concat (map (fill ?kw) segs)"
  have b: "build_prompt E TEMPLATE text audience len = Inr ?p"
    using assms(1) by (rule build_prompt_segments) (simp add: assms(2))
  have "Field (ascii ''length'') \<in> set segs" "Field (ascii ''text'') \<in> set segs"
    "Field (ascii ''audience'') \<in> set segs"
    using assms(2) by (auto simp: field_in_segs [symmetric])
  then have ml: "fill ?kw (Field (ascii ''length'')) \<in> set (map (fill ?kw) segs)"
    and mt: "fill ?kw (Field (ascii ''text'')) \<in> set (map (fill ?kw) segs)"
    and ma: "fill ?kw (Field (ascii ''audience'')) \<in> set (map (fill ?kw) segs)"
    by (simp_all only: set_map image_eqI)
  have fl: "fill ?kw (Field (ascii ''length'')) = str_int len @ ascii '' sentences''"
    by (simp only: fill.simps kw_lookup option.case)
  have ft: "fill ?kw (Field (ascii ''text'')) = text"
    by (simp only: fill.simps kw_lookup option.case)
  have fa: "fill ?kw (Field (ascii ''audience'')) = audience"
    by (simp only: fill.simps kw_lookup option.case)
  have l: "sublist (str_int len @ ascii '' sentences'') ?p"
    using in_concat_sublist [OF ml] by (simp only: fl)
  have t: "sublist text ?p"
    using in_concat_sublist [OF mt] by (simp only: ft)
  have a: "sublist audience ?p"
    using in_concat_sublist [OF ma] by (simp only: fa)
  have d: "3 \<le> len \<and> len \<le> 10 \<longrightarrow> str_int len = (if len = 10 then ascii ''10'' else [48 + nat len])"
    using str_int_small [of len] by blast
  from b l t a d show ?thesis by blast
qed

theorem prompt_substitution_witness:
  "build_prompt (stub_env (Inr (ok_response stub_body)) (Inr []))
       (stub_template (ascii ''{audience} {length} {text}''))
       (ascii ''paper'') (ascii ''Technical'') 5
     = Inr (ascii ''Technical 5 sentences paper'') \<and>
   build_prompt (stub_env (Inr (ok_response stub_body)) (Inr []))
       (stub_template (ascii ''{audience} {length} {text}''))
       (ascii ''{text}'') (ascii ''Technical'') 5
     = Inr (ascii ''Technical 5 sentences {text}'')"
proof -
  let ?E = "stub_env (Inr (ok_response stub_body)) (Inr [])"
  let ?segs = "[Field (ascii ''audience''), Lit (ascii '' ''), Field (ascii ''length''),
                Lit (ascii '' ''), Field (ascii ''text'')]"
  have a: "subscript_str (stub_template (ascii ''{audience} {length} {text}''))
             (ascii ''prompt_template'') = Inr (PStr (template_text ?segs))"
    by (simp only: three_field_template stub_prompt_template)
  have f: "set (field_names ?segs) = {ascii ''audience'', ascii ''length'', ascii ''text''}"
    by auto
  have v: "concat (map (fill [(ascii ''audience'', ascii ''Technical''),
                              (ascii ''length'', str_int 5 @ ascii '' sentences''),
                              (ascii ''text'', x)]) ?segs)
             = ascii ''Technical 5 sentences '' @ x" for x
    by (simp add: str_int_5) (simp add: ascii_def)
  from prompt_substitution [OF a f, of ?E "ascii ''paper''" "ascii ''Technical''" 5]
  have "build_prompt ?E (stub_template (ascii ''{audience} {length} {text}''))
          (ascii ''paper'') (ascii ''Technical'') 5 = Inr (ascii ''Technical 5 sentences '' @ ascii ''paper'')"
    by (auto simp only: v)
  moreover
  from prompt_substitution [OF a f, of ?E "ascii ''{text}''" "ascii ''Technical''" 5]
  have "build_prompt ?E (stub_template (ascii ''{audience} {length} {text}''))
          (ascii ''{text}'') (ascii ''Technical'') 5 = Inr (ascii ''Technical 5 sentences '' @ ascii ''{text}'')"
    by (auto simp only: v)
  ultimately show ?thesis by (simp add: ascii_def)
qed

end
